theory Spec2Isabelle
  imports Main
begin

section \<open>The device scaffold of \<open>device.py\<close>\<close>

subsection \<open>Data model\<close>

text \<open>
  Modelled from the spec: the enumeration \<open>media_player.States\<close> is declared by the
  \<open>ucapi\<close> library, not in \<open>device.py\<close>; the spec calls it "an enumerated set of
  player states". The code of \<open>device.py\<close> names two of its members, \<open>ON\<close> and
  \<open>OFF\<close>; the others stand for the remaining members of the enumeration.
\<close>

datatype States = UNAVAILABLE | UNKNOWN | ON | OFF | PLAYING | PAUSED | STANDBY | BUFFERING

text \<open>
  Modelled from the spec: \<open>DeviceConfig\<close> is imported from \<open>const\<close>, which is not
  part of the source at hand; the spec says it "holds \<open>identifier\<close>, \<open>name\<close>,
  \<open>address\<close>". The types are the return types of the properties of \<open>Device\<close> that
  read the fields: \<open>str\<close>, \<open>str\<close> and \<open>str | None\<close>.
\<close>

record DeviceConfig =
  config_identifier :: string
  config_name :: string
  config_address :: "string option"

text \<open>
  Modelled from the spec: \<open>MediaPlayerAttributes\<close> is a dataclass of
  \<open>ucapi_framework.helpers\<close>; the spec describes "an \<open>attributes\<close> record (a
  loosely-typed bag of display attributes, only \<open>STATE\<close> populated)". \<open>STATE\<close> is the
  only field \<open>device.py\<close> passes to the constructor, reads or assigns.
\<close>

record MediaPlayerAttributes =
  STATE :: "States option"

text \<open>
  The event loop and the configuration manager are opaque values that the constructor
  hands to the base class; both parameters may be \<open>None\<close>.
\<close>

typedecl AbstractEventLoop
typedecl BaseConfigManager

text \<open>
  The object state of a \<open>Device\<close>. \<open>device_config\<close> is the attribute
  \<open>_device_config\<close> that the properties read, \<open>power_state\<close> the attribute
  \<open>_power_state\<close>.
\<close>

record Device =
  device_config :: DeviceConfig
  loop :: "AbstractEventLoop option"
  config_manager :: "BaseConfigManager option"
  power_state :: "States option"
  attributes :: MediaPlayerAttributes

subsection \<open>Logging and exceptions\<close>

text \<open>
  A call of the module's logger \<open>_LOG\<close> is recorded with its level, its format string
  and its arguments, in the order of the calls. Exceptions are values.
\<close>

datatype exn = Exception string

datatype level = DEBUG | ERROR

datatype log_arg =
    ArgStr string
  | ArgOptStr "string option"
  | ArgState "States option"
  | ArgExn exn

type_synonym log_call = "level \<times> string \<times> log_arg list"

definition LOG_debug :: "string \<Rightarrow> log_arg list \<Rightarrow> log_call list \<Rightarrow> log_call list" where
  "LOG_debug fmt args lg = lg @ [(DEBUG, fmt, args)]"

definition LOG_error :: "string \<Rightarrow> log_arg list \<Rightarrow> log_call list \<Rightarrow> log_call list" where
  "LOG_error fmt args lg = lg @ [(ERROR, fmt, args)]"

text \<open>
  Whether a call of the logger returns or raises is decided by the handlers and filters
  installed on it, which \<open>device.py\<close> does not choose: a \<open>logger\<close> maps a call to
  \<open>None\<close> when the call returns and to \<open>Some e\<close> when a handler or a filter raises
  \<open>e\<close>. \<open>verify_connection\<close>, whose \<open>try\<close> statement guards a logger call, takes
  the logger as a parameter; the other methods are modelled for a logger whose calls
  return.
\<close>

type_synonym logger = "log_call \<Rightarrow> exn option"

definition LOG_outcome :: "logger \<Rightarrow> level \<Rightarrow> string \<Rightarrow> log_arg list \<Rightarrow> exn + unit" where
  "LOG_outcome lgr lv fmt args =
     (case lgr (lv, fmt, args) of None \<Rightarrow> Inr () | Some e \<Rightarrow> Inl e)"

text \<open>
  What a call of an asynchronous method leaves behind: \<open>Inr ()\<close> when it returns
  \<open>None\<close> or \<open>Inl e\<close> when it raises \<open>e\<close>, the device after the call, and the
  logger calls made so far.
\<close>

record run =
  ret :: "exn + unit"
  dev :: Device
  logged :: "log_call list"

subsection \<open>Constructor\<close>

text \<open>
  Modelled from the spec: \<open>StatelessHTTPDevice.__init__\<close> belongs to
  \<open>ucapi_framework\<close>; the spec describes "a constructor that stores config". The
  body of \<open>Device.__init__\<close> itself then sets \<open>_power_state\<close> to \<open>None\<close> and
  \<open>attributes\<close> to \<open>MediaPlayerAttributes(STATE=None)\<close>.
\<close>

definition Device_init ::
  "DeviceConfig \<Rightarrow> AbstractEventLoop option \<Rightarrow> BaseConfigManager option \<Rightarrow> Device" where
  "Device_init cfg lp mgr =
     \<lparr>device_config = cfg, loop = lp, config_manager = mgr,
      power_state = None,
      attributes = \<lparr>STATE = None\<rparr>\<rparr>"

subsection \<open>Properties\<close>

text \<open>The property \<open>identifier\<close> (the bare name is reserved by Isabelle).\<close>

definition identifier_prop :: "Device \<Rightarrow> string" where
  "identifier_prop d = config_identifier (device_config d)"

definition name :: "Device \<Rightarrow> string" where
  "name d = config_name (device_config d)"

definition address :: "Device \<Rightarrow> string option" where
  "address d = config_address (device_config d)"

definition state :: "Device \<Rightarrow> States option" where
  "state d = power_state d"

text \<open>\<open>self.name if self.name else self.identifier\<close>: a string is true when it is not empty.\<close>

definition log_id :: "Device \<Rightarrow> string" where
  "log_id d = (if name d \<noteq> [] then name d else identifier_prop d)"

subsection \<open>Connection management\<close>

text \<open>
  The body of the \<open>try\<close> statement of \<open>verify_connection\<close>: one logger call, every
  other line being a comment. It raises what the logger call raises.
\<close>

definition verify_connection_try :: "logger \<Rightarrow> Device \<Rightarrow> log_call list \<Rightarrow> run" where
  "verify_connection_try lgr d lg =
     (let fmt = ''[%s] Connection verified, state: %s'';
          args = [ArgStr (log_id d), ArgState (power_state d)]
      in \<lparr>ret = LOG_outcome lgr DEBUG fmt args, dev = d, logged = LOG_debug fmt args lg\<rparr>)"

text \<open>
  \<open>verify_connection\<close>: a logger call outside the \<open>try\<close> statement, whose exception
  nothing catches; then the \<open>try\<close> body. The handler \<open>except Exception as err\<close> calls
  \<open>_LOG.error\<close> and raises \<open>err\<close> again, unless the call of \<open>_LOG.error\<close> raises
  itself.
\<close>

definition verify_connection :: "logger \<Rightarrow> Device \<Rightarrow> log_call list \<Rightarrow> run" where
  "verify_connection lgr d lg =
     (let fmt1 = ''[%s] Verifying connection to device at %s'';
          args1 = [ArgStr (log_id d), ArgOptStr (address d)];
          lg1 = LOG_debug fmt1 args1 lg
      in case LOG_outcome lgr DEBUG fmt1 args1 of
           Inl e \<Rightarrow> \<lparr>ret = Inl e, dev = d, logged = lg1\<rparr>
         | Inr u \<Rightarrow>
             (let r = verify_connection_try lgr d lg1
              in case ret r of
                   Inr v \<Rightarrow> r
                 | Inl err \<Rightarrow>
                     (let fmt3 = ''[%s] Connection verification failed: %s'';
                          args3 = [ArgStr (log_id (dev r)), ArgExn err];
                          lg3 = LOG_error fmt3 args3 (logged r)
                      in case LOG_outcome lgr ERROR fmt3 args3 of
                           Inl e' \<Rightarrow> r\<lparr>ret := Inl e', logged := lg3\<rparr>
                         | Inr w \<Rightarrow> r\<lparr>ret := Inl err, logged := lg3\<rparr>)))"

subsection \<open>Power control\<close>

definition power_on :: "Device \<Rightarrow> log_call list \<Rightarrow> run" where
  "power_on d lg =
     (let lg1 = LOG_debug ''[%s] Powering on'' [ArgStr (log_id d)] lg;
          d1 = d\<lparr>power_state := Some ON\<rparr>;
          d2 = d1\<lparr>attributes := (attributes d1)\<lparr>STATE := Some ON\<rparr>\<rparr>
      in \<lparr>ret = Inr (), dev = d2, logged = lg1\<rparr>)"

definition power_off :: "Device \<Rightarrow> log_call list \<Rightarrow> run" where
  "power_off d lg =
     (let lg1 = LOG_debug ''[%s] Powering off'' [ArgStr (log_id d)] lg;
          d1 = d\<lparr>power_state := Some OFF\<rparr>;
          d2 = d1\<lparr>attributes := (attributes d1)\<lparr>STATE := Some OFF\<rparr>\<rparr>
      in \<lparr>ret = Inr (), dev = d2, logged = lg1\<rparr>)"

definition power_toggle :: "Device \<Rightarrow> log_call list \<Rightarrow> run" where
  "power_toggle d lg =
     (let lg1 = LOG_debug ''[%s] Toggling power'' [ArgStr (log_id d)] lg
      in if power_state d = Some ON then power_off d lg1 else power_on d lg1)"

subsection \<open>Command sending\<close>

text \<open>
  \<open>send_command\<close>: the same logger call twice; the rest of the body is a comment. The
  keyword arguments are a list of names and values of any type.
\<close>

definition send_command :: "string \<Rightarrow> (string \<times> 'v) list \<Rightarrow> Device \<Rightarrow> log_call list \<Rightarrow> run" where
  "send_command command kwargs d lg =
     (let lg1 = LOG_debug ''[%s] Sending command: %s'' [ArgStr (log_id d), ArgStr command] lg;
          lg2 = LOG_debug ''[%s] Sending command: %s'' [ArgStr (log_id d), ArgStr command] lg1
      in \<lparr>ret = Inr (), dev = d, logged = lg2\<rparr>)"

subsection \<open>Helper methods\<close>

definition get_device_attributes :: "Device \<Rightarrow> string \<Rightarrow> MediaPlayerAttributes" where
  "get_device_attributes d entity_id = attributes d"

subsection \<open>Calls made by the framework\<close>

text \<open>
  The methods the framework invokes on a device, as values, so that a sequence of
  calls can be run from a freshly constructed device. A call of \<open>verify_connection\<close>
  comes with the logger in effect during the call.
\<close>

datatype 'v call =
    Call_verify_connection logger
  | Call_power_on
  | Call_power_off
  | Call_power_toggle
  | Call_send_command string "(string \<times> 'v) list"
  | Call_get_device_attributes string

text \<open>
  \<open>get_device_attributes\<close> is an ordinary method: it returns the attributes and
  assigns nothing, so the device and the logger calls stay as they are.
\<close>

fun invoke :: "'v call \<Rightarrow> Device \<Rightarrow> log_call list \<Rightarrow> run" where
  "invoke (Call_verify_connection lgr) d lg = verify_connection lgr d lg"
| "invoke Call_power_on d lg = power_on d lg"
| "invoke Call_power_off d lg = power_off d lg"
| "invoke Call_power_toggle d lg = power_toggle d lg"
| "invoke (Call_send_command command kwargs) d lg = send_command command kwargs d lg"
| "invoke (Call_get_device_attributes entity_id) d lg =
     (let a = get_device_attributes d entity_id
      in \<lparr>ret = Inr (), dev = d, logged = lg\<rparr>)"

text \<open>
  The calls of a list one after the other, each on the device the one before left,
  whether that one returned or raised.
\<close>

primrec invoke_all :: "'v call list \<Rightarrow> Device \<Rightarrow> log_call list \<Rightarrow> Device \<times> log_call list" where
  "invoke_all [] d lg = (d, lg)"
| "invoke_all (c # cs) d lg = (let r = invoke c d lg in invoke_all cs (dev r) (logged r))"

text \<open>Two calls of \<open>power_toggle\<close>, the second on what the first left.\<close>

definition power_toggle_twice :: "Device \<Rightarrow> log_call list \<Rightarrow> run" where
  "power_toggle_twice d lg = (let r = power_toggle d lg in power_toggle (dev r) (logged r))"

text \<open>The two places that track the power state agree.\<close>

definition consistent :: "Device \<Rightarrow> bool" where
  "consistent d = (power_state d = STATE (attributes d))"

subsection \<open>Sample values\<close>

definition unnamed_config :: DeviceConfig where
  "unnamed_config =
     \<lparr>config_identifier = ''device-1'', config_name = [],
      config_address = Some ''192.168.1.20''\<rparr>"

definition named_config :: DeviceConfig where
  "named_config =
     \<lparr>config_identifier = ''device-2'', config_name = ''Living room'',
      config_address = None\<rparr>"



text \<open>A device whose two records of the power state differ.\<close>

definition split_device :: Device where
  "split_device =
     \<lparr>device_config = named_config, loop = None, config_manager = None,
      power_state = Some ON,
      attributes = \<lparr>STATE = Some PLAYING\<rparr>\<rparr>"

section \<open>Properties of the scaffold\<close>

subsection \<open>What each method leaves behind\<close>

lemma power_on_run:
  "power_on d lg =
     \<lparr>ret = Inr (),
      dev = d\<lparr>power_state := Some ON, attributes := (attributes d)\<lparr>STATE := Some ON\<rparr>\<rparr>,
      logged = lg @ [(DEBUG, ''[%s] Powering on'', [ArgStr (log_id d)])]\<rparr>"
  by (simp add: power_on_def LOG_debug_def Let_def)

lemma power_off_run:
  "power_off d lg =
     \<lparr>ret = Inr (),
      dev = d\<lparr>power_state := Some OFF, attributes := (attributes d)\<lparr>STATE := Some OFF\<rparr>\<rparr>,
      logged = lg @ [(DEBUG, ''[%s] Powering off'', [ArgStr (log_id d)])]\<rparr>"
  by (simp add: power_off_def LOG_debug_def Let_def)

lemma power_toggle_dev:
  "dev (power_toggle d lg) =
     (if power_state d = Some ON
      then d\<lparr>power_state := Some OFF, attributes := (attributes d)\<lparr>STATE := Some OFF\<rparr>\<rparr>
      else d\<lparr>power_state := Some ON, attributes := (attributes d)\<lparr>STATE := Some ON\<rparr>\<rparr>)"
  by (simp add: power_toggle_def power_on_run power_off_run Let_def)

lemma verify_connection_try_dev: "dev (verify_connection_try lgr d lg) = d"
  by (simp add: verify_connection_try_def Let_def)

lemma verify_connection_dev: "dev (verify_connection lgr d lg) = d"
  by (simp add: verify_connection_def verify_connection_try_dev Let_def split: sum.split)

lemma send_command_dev: "dev (send_command command kwargs d lg) = d"
  by (simp add: send_command_def Let_def)

subsection \<open>Power control\<close>

text \<open>
  C1. For every device, \<open>power_toggle\<close> called when the power state is \<open>ON\<close> leaves
  the power state \<open>OFF\<close>; called in any other state (\<open>OFF\<close>, another member of the
  enumeration, or \<open>None\<close>) it leaves the power state \<open>ON\<close>. The call returns, and the
  \<open>state\<close> property reads the same value.
\<close>

theorem power_toggle_result:
  "ret (power_toggle d lg) = Inr ()
   \<and> power_state (dev (power_toggle d lg))
       = (if power_state d = Some ON then Some OFF else Some ON)
   \<and> state (dev (power_toggle d lg))
       = (if state d = Some ON then Some OFF else Some ON)"
  by (simp add: power_toggle_def power_on_run power_off_run state_def Let_def)

text \<open>
  C2. After \<open>power_on\<close> returns, \<open>_power_state\<close> and \<open>attributes.STATE\<close> are both
  \<open>ON\<close>, whatever the device was before; after \<open>power_off\<close> both are \<open>OFF\<close>. Nothing
  else of the device changes: putting the two old values back gives the old device.
\<close>

theorem power_on_off_effect:
  "ret (power_on d lg) = Inr ()
   \<and> power_state (dev (power_on d lg)) = Some ON
   \<and> STATE (attributes (dev (power_on d lg))) = Some ON
   \<and> (dev (power_on d lg))\<lparr>power_state := power_state d, attributes := attributes d\<rparr> = d
   \<and> ret (power_off d lg) = Inr ()
   \<and> power_state (dev (power_off d lg)) = Some OFF
   \<and> STATE (attributes (dev (power_off d lg))) = Some OFF
   \<and> (dev (power_off d lg))\<lparr>power_state := power_state d, attributes := attributes d\<rparr> = d"
  by (simp add: power_on_run power_off_run)

subsection \<open>The two records of the power state\<close>

lemma consistent_invoke: "consistent d \<Longrightarrow> consistent (dev (invoke c d lg))"
  by (cases c)
     (simp_all add: consistent_def power_on_run power_off_run power_toggle_dev
        verify_connection_dev send_command_dev)

lemma consistent_invoke_all: "consistent d \<Longrightarrow> consistent (fst (invoke_all cs d lg))"
proof (induction cs arbitrary: d lg)
  case Nil
  then show ?case by simp
next
  case (Cons c cs)
  from Cons.prems have "consistent (dev (invoke c d lg))"
    by (rule consistent_invoke)
  then show ?case
    by (simp add: Let_def Cons.IH)
qed

lemma consistent_init: "consistent (Device_init cfg lp mgr)"
  by (simp add: consistent_def Device_init_def)

text \<open>
  C3. \<open>_power_state\<close> equals \<open>attributes.STATE\<close> after construction (both \<open>None\<close>),
  every method of the class (\<open>verify_connection\<close>, \<open>power_on\<close>, \<open>power_off\<close>,
  \<open>power_toggle\<close>, \<open>send_command\<close>, \<open>get_device_attributes\<close>) keeps the equality,
  and so it holds after any sequence of calls on a freshly constructed device.
\<close>

theorem state_consistency_invariant:
  "consistent (Device_init cfg lp mgr)
   \<and> power_state (Device_init cfg lp mgr) = None
   \<and> STATE (attributes (Device_init cfg lp mgr)) = None
   \<and> (\<forall>(c :: 'v call) d lg. consistent d \<longrightarrow> consistent (dev (invoke c d lg)))
   \<and> (\<forall>(cs :: 'v call list) lg. consistent (fst (invoke_all cs (Device_init cfg lp mgr) lg)))"
proof -
  have "\<forall>(c :: 'v call) d lg. consistent d \<longrightarrow> consistent (dev (invoke c d lg))"
    by (simp add: consistent_invoke)
  moreover have
    "\<forall>(cs :: 'v call list) lg. consistent (fst (invoke_all cs (Device_init cfg lp mgr) lg))"
    by (simp add: consistent_invoke_all consistent_init)
  moreover have "power_state (Device_init cfg lp mgr) = None"
    and "STATE (attributes (Device_init cfg lp mgr)) = None"
    by (simp_all add: Device_init_def)
  ultimately show ?thesis
    using consistent_init by blast
qed

theorem state_consistency_invariant_witness:
  "consistent (Device_init unnamed_config None None)
   \<and> consistent (dev (invoke (Call_power_toggle :: unit call)
                      (Device_init unnamed_config None None) []))
   \<and> consistent (dev (invoke (Call_send_command ''mute'' [(''on'', ())])
                      (dev (power_off (Device_init unnamed_config None None) [])) []))"
proof -
  note inv = state_consistency_invariant [where 'v = unit, of unnamed_config None None]
  from inv have init: "consistent (Device_init unnamed_config None None)"
    by blast
  from inv have step: "\<And>(c :: unit call) d lg. consistent d \<Longrightarrow> consistent (dev (invoke c d lg))"
    by blast
  have "consistent (dev (invoke (Call_power_off :: unit call)
                      (Device_init unnamed_config None None) []))"
    using init by (rule step)
  then have off: "consistent (dev (power_off (Device_init unnamed_config None None) []))"
    by simp
  show ?thesis
    using init step [OF init] step [OF off] by blast
qed

subsection \<open>Connection management and command sending\<close>




text \<open>
  C5. \<open>send_command\<close> routes no command: for every command string and all keyword
  arguments it returns \<open>None\<close> and the whole device (\<open>_power_state\<close>, \<open>attributes\<close>,
  the stored configuration) is as before; it only calls the logger, twice.
\<close>

theorem send_command_inert:
  "ret (send_command command kwargs d lg) = Inr ()
   \<and> dev (send_command command kwargs d lg) = d
   \<and> power_state (dev (send_command command kwargs d lg)) = power_state d
   \<and> attributes (dev (send_command command kwargs d lg)) = attributes d
   \<and> device_config (dev (send_command command kwargs d lg)) = device_config d
   \<and> logged (send_command command kwargs d lg)
       = lg @ [(DEBUG, ''[%s] Sending command: %s'', [ArgStr (log_id d), ArgStr command]),
               (DEBUG, ''[%s] Sending command: %s'', [ArgStr (log_id d), ArgStr command])]"
  by (simp add: send_command_def LOG_debug_def Let_def)

subsection \<open>Attributes, properties and the constructor\<close>

text \<open>
  C6. For every entity id, \<open>get_device_attributes\<close> returns the attributes of the
  device; two calls with different entity ids on the same device return the same.
\<close>

theorem get_device_attributes_any_entity:
  "get_device_attributes d entity_id = attributes d
   \<and> get_device_attributes d entity_id = get_device_attributes d entity_id'"
  by (simp add: get_device_attributes_def)

text \<open>
  C7. The properties \<open>identifier\<close>, \<open>name\<close> and \<open>address\<close> of a device return the
  fields \<open>identifier\<close>, \<open>name\<close> and \<open>address\<close> of the configuration given to the
  constructor, unchanged, whatever the configuration.
\<close>

theorem config_properties:
  "identifier_prop (Device_init cfg lp mgr) = config_identifier cfg
   \<and> name (Device_init cfg lp mgr) = config_name cfg
   \<and> address (Device_init cfg lp mgr) = config_address cfg"
  by (simp add: identifier_prop_def name_def address_def Device_init_def)

text \<open>
  C8. The constructor sets \<open>_power_state\<close> to \<open>None\<close> and \<open>attributes\<close> to a record
  whose \<open>STATE\<close> is \<open>None\<close>, for every configuration; the \<open>state\<close> property of a
  freshly constructed device is \<open>None\<close>.
\<close>

theorem constructor_defaults:
  "power_state (Device_init cfg lp mgr) = None
   \<and> attributes (Device_init cfg lp mgr) = \<lparr>STATE = None\<rparr>
   \<and> STATE (attributes (Device_init cfg lp mgr)) = None
   \<and> state (Device_init cfg lp mgr) = None"
  by (simp add: Device_init_def state_def)

text \<open>
  C9. \<open>log_id\<close> is the name of the device when the name is not empty, and the
  identifier when it is; for a configuration whose name is the empty string, \<open>log_id\<close>
  of the constructed device is the identifier of the configuration.
\<close>

theorem log_id_fallback:
  "(name d \<noteq> [] \<longrightarrow> log_id d = name d)
   \<and> (name d = [] \<longrightarrow> log_id d = identifier_prop d)
   \<and> (config_name cfg = [] \<longrightarrow> log_id (Device_init cfg lp mgr) = config_identifier cfg)"
  by (simp add: log_id_def name_def identifier_prop_def Device_init_def)

theorem log_id_fallback_witness:
  "name (Device_init named_config None None) \<noteq> []
   \<and> log_id (Device_init named_config None None) = ''Living room''
   \<and> config_name unnamed_config = []
   \<and> log_id (Device_init unnamed_config None None) = ''device-1''"
proof -
  have named: "name (Device_init named_config None None) = ''Living room''"
    by (simp add: name_def Device_init_def named_config_def)
  have unnamed: "config_name unnamed_config = []"
    and ident: "config_identifier unnamed_config = ''device-1''"
    by (simp_all add: unnamed_config_def)
  show ?thesis
    using log_id_fallback [of "Device_init named_config None None" unnamed_config None None]
      named unnamed ident
    by simp
qed

subsection \<open>Toggling twice\<close>

lemma power_toggle_twice_dev:
  "dev (power_toggle_twice d lg) =
     (if power_state d = Some ON
      then d\<lparr>power_state := Some ON, attributes := (attributes d)\<lparr>STATE := Some ON\<rparr>\<rparr>
      else d\<lparr>power_state := Some OFF, attributes := (attributes d)\<lparr>STATE := Some OFF\<rparr>\<rparr>)"
  by (simp add: power_toggle_twice_def power_toggle_dev Let_def)

text \<open>
  C10, as stated, asks that two calls of \<open>power_toggle\<close> give back \<open>_power_state\<close> and
  \<open>attributes.STATE\<close> on every device whose \<open>_power_state\<close> is \<open>ON\<close> or \<open>OFF\<close>. On a
  device whose \<open>_power_state\<close> is \<open>ON\<close> while \<open>attributes.STATE\<close> is \<open>PLAYING\<close>, the
  two calls leave \<open>attributes.STATE\<close> at \<open>ON\<close>.
\<close>

theorem power_toggle_twice_counterexample:
  "power_state split_device = Some ON
   \<and> STATE (attributes split_device) = Some PLAYING
   \<and> power_state (dev (power_toggle_twice split_device [])) = Some ON
   \<and> STATE (attributes (dev (power_toggle_twice split_device []))) = Some ON
   \<and> STATE (attributes (dev (power_toggle_twice split_device [])))
       \<noteq> STATE (attributes split_device)"
  by (simp add: power_toggle_twice_dev split_device_def)

text \<open>
  C10, amended. For every device whose \<open>_power_state\<close> is \<open>ON\<close> or \<open>OFF\<close>, two calls
  of \<open>power_toggle\<close> give \<open>_power_state\<close> its first value back; they give
  \<open>attributes.STATE\<close> its first value back when it was equal to \<open>_power_state\<close>
  beforehand, as it is on every device that was constructed and then used through
  the methods of the class alone. From \<open>None\<close> they lead to \<open>OFF\<close> in both places,
  not back to \<open>None\<close>.
\<close>

theorem power_toggle_twice_restores:
  "(power_state d = Some ON \<or> power_state d = Some OFF \<longrightarrow>
      power_state (dev (power_toggle_twice d lg)) = power_state d)
   \<and> ((power_state d = Some ON \<or> power_state d = Some OFF) \<and> consistent d \<longrightarrow>
      STATE (attributes (dev (power_toggle_twice d lg))) = STATE (attributes d)
      \<and> consistent (dev (power_toggle_twice d lg)))
   \<and> (\<forall>(cs :: 'v call list) cfg lp mgr lg'.
        power_state (fst (invoke_all cs (Device_init cfg lp mgr) lg')) = Some ON
        \<or> power_state (fst (invoke_all cs (Device_init cfg lp mgr) lg')) = Some OFF \<longrightarrow>
        STATE (attributes (dev (power_toggle_twice
                                  (fst (invoke_all cs (Device_init cfg lp mgr) lg')) lg)))
          = STATE (attributes (fst (invoke_all cs (Device_init cfg lp mgr) lg'))))
   \<and> (power_state d = None \<longrightarrow>
      power_state (dev (power_toggle_twice d lg)) = Some OFF
      \<and> STATE (attributes (dev (power_toggle_twice d lg))) = Some OFF
      \<and> power_state (dev (power_toggle_twice d lg)) \<noteq> power_state d)"
proof -
  have any: "\<And>d. power_state d = Some ON \<or> power_state d = Some OFF \<Longrightarrow>
      power_state (dev (power_toggle_twice d lg)) = power_state d"
    by (auto simp add: power_toggle_twice_dev)
  have agree: "\<And>d. power_state d = Some ON \<or> power_state d = Some OFF \<Longrightarrow> consistent d \<Longrightarrow>
      STATE (attributes (dev (power_toggle_twice d lg))) = STATE (attributes d)
      \<and> consistent (dev (power_toggle_twice d lg))"
    by (auto simp add: power_toggle_twice_dev consistent_def)
  have reached: "\<And>(cs :: 'v call list) cfg lp mgr lg'.
      consistent (fst (invoke_all cs (Device_init cfg lp mgr) lg'))"
    by (rule consistent_invoke_all) (rule consistent_init)
  have unset: "power_state d = None \<Longrightarrow>
      power_state (dev (power_toggle_twice d lg)) = Some OFF
      \<and> STATE (attributes (dev (power_toggle_twice d lg))) = Some OFF
      \<and> power_state (dev (power_toggle_twice d lg)) \<noteq> power_state d"
    by (simp add: power_toggle_twice_dev)
  show ?thesis
    using any [of d] agree [of d] agree [OF _ reached] unset by blast
qed

theorem power_toggle_twice_restores_witness:
  "power_state (dev (power_on (Device_init named_config None None) [])) = Some ON
   \<and> consistent (dev (power_on (Device_init named_config None None) []))
   \<and> power_state (dev (power_toggle_twice
                          (dev (power_on (Device_init named_config None None) [])) []))
       = Some ON
   \<and> STATE (attributes (dev (power_toggle_twice
                          (dev (power_on (Device_init named_config None None) [])) [])))
       = Some ON
   \<and> power_state (fst (invoke_all [Call_power_toggle, Call_power_toggle :: unit call]
                           (Device_init named_config None None) [])) = Some OFF
   \<and> STATE (attributes (dev (power_toggle_twice
         (fst (invoke_all [Call_power_toggle, Call_power_toggle :: unit call]
                 (Device_init named_config None None) [])) []))) = Some OFF
   \<and> power_state (Device_init named_config None None) = None
   \<and> power_state (dev (power_toggle_twice (Device_init named_config None None) []))
       = Some OFF"
proof -
  let ?fresh = "Device_init named_config None None"
  let ?on = "dev (power_on ?fresh [])"
  have on: "power_state ?on = Some ON" and st: "STATE (attributes ?on) = Some ON"
    by (simp_all add: power_on_run)
  have cons: "consistent ?on"
    by (simp add: consistent_def on st)
  have fresh: "power_state ?fresh = None"
    by (simp add: Device_init_def)
  let ?calls = "[Call_power_toggle, Call_power_toggle] :: unit call list"
  have reached: "fst (invoke_all ?calls ?fresh []) = dev (power_toggle_twice ?fresh [])"
    by (simp add: power_toggle_twice_def Let_def)
  have off: "power_state (dev (power_toggle_twice ?fresh [])) = Some OFF"
    and off_st: "STATE (attributes (dev (power_toggle_twice ?fresh []))) = Some OFF"
    by (simp_all add: power_toggle_twice_dev fresh)
  note thm_on = power_toggle_twice_restores [where 'v = unit, of ?on "[]"]
  note thm_fresh = power_toggle_twice_restores [where 'v = unit, of ?fresh "[]"]
  from thm_on on cons st
  have a: "power_state (dev (power_toggle_twice ?on [])) = Some ON
           \<and> STATE (attributes (dev (power_toggle_twice ?on []))) = Some ON"
    by simp
  have pre: "power_state (fst (invoke_all ?calls ?fresh [])) = Some OFF"
    unfolding reached by (rule off)
  have post: "STATE (attributes (fst (invoke_all ?calls ?fresh []))) = Some OFF"
    unfolding reached by (rule off_st)
  from thm_on have "power_state (fst (invoke_all ?calls ?fresh [])) = Some ON
        \<or> power_state (fst (invoke_all ?calls ?fresh [])) = Some OFF \<longrightarrow>
        STATE (attributes (dev (power_toggle_twice (fst (invoke_all ?calls ?fresh [])) [])))
          = STATE (attributes (fst (invoke_all ?calls ?fresh [])))"
    by blast
  with pre have "STATE (attributes (dev (power_toggle_twice (fst (invoke_all ?calls ?fresh [])) [])))
      = STATE (attributes (fst (invoke_all ?calls ?fresh [])))"
    by blast
  with post have b: "STATE (attributes (dev (power_toggle_twice (fst (invoke_all ?calls ?fresh [])) [])))
      = Some OFF"
    by (simp only:)
  from thm_fresh fresh
  have c: "power_state (dev (power_toggle_twice ?fresh [])) = Some OFF"
    by simp
  show ?thesis
    using on cons a b pre fresh c by blast
qed

end
